theory Spec2Isabelle
  imports Main
begin

section \<open>The in-process kernel manager (ipykernel/inprocess/manager.py)\<close>

text \<open>
  \<^verbatim>\<open>InProcessKernelManager\<close> owns one slot, \<^verbatim>\<open>self.kernel\<close>, holding an
  \<^verbatim>\<open>InProcessKernel\<close> object or \<^verbatim>\<open>None\<close>, and a \<^verbatim>\<open>Session\<close>. Its methods are
  modelled as actions on the manager: a function from the manager before the call to
  the outcome of the call (an exception, \<open>Inl\<close>, or a returned value, \<open>Inr\<close>) and the
  manager after it. A call that raises keeps the mutations made before the raise.

  The kernel object, its output-publishing thread and the base class's client factory
  are not part of the file. Their calls are parameters of the model: each may return or
  raise, depending on the calls made so far.

  \<^verbatim>\<open>start_kernel\<close> and \<^verbatim>\<open>restart_kernel\<close> are coroutines: at
  \<^verbatim>\<open>await self.kernel.start(...)\<close> the call is suspended, and until it is resumed the
  other tasks of the event loop run and may call the manager. What they do to the
  manager during the await is a parameter of the two methods.
\<close>

subsection \<open>Values\<close>

text \<open>The identity of an \<^verbatim>\<open>InProcessKernel\<close> object.\<close>

type_synonym handle = nat

text \<open>A raised Python exception: its class and its message.\<close>

datatype exn = Exn (exn_class: string) (exn_msg: string)

text \<open>The values a keyword argument can carry, as far as the manager looks at them.\<close>

datatype pyval = PyNone | PyBool bool | PyInt int | PyStr string | PyKernel handle

type_synonym kwargs = "string \<rightharpoonup> pyval"

text \<open>The \<^verbatim>\<open>task_status\<close> token of anyio: the default, or a token of the caller's.\<close>

datatype task_status = TASK_STATUS_IGNORED | TaskStatus nat

text \<open>
  What the manager does to its collaborators and to its slot, in program order: the
  calls it makes on a kernel object (logged when the call is made, whether it returns or
  raises) and the assignments to \<^verbatim>\<open>self.kernel\<close>.
\<close>

datatype event =
    Init handle
  | Start handle task_status
  | IopubStop handle
  | Stop handle
  | SetKernel "handle option"

text \<open>\<^verbatim>\<open>Session(key=INPROCESS_KEY, parent=self)\<close>: the key is all the model keeps.\<close>

record session =
  key :: string

text \<open>
  The manager: the two traits of the class, and two ghost fields, the log of events and
  the number of kernel objects allocated so far (the identity of the next one).
\<close>

record manager =
  kernel :: "handle option"
  session :: session
  trace :: "event list"
  allocated :: nat

text \<open>
  The collaborators. Each field tells if a call raises (\<open>Some e\<close>) or returns
  (\<open>None\<close>), given the events logged before the call:
  \<^item> \<open>kernel_init\<close>: \<^verbatim>\<open>InProcessKernel(parent=self, session=self.session)\<close>, with
    the import of the class that precedes it;
  \<^item> \<open>kernel_start\<close>: how \<^verbatim>\<open>await kernel.start(task_status=task_status)\<close> ends, given
    the events logged by the time the await is resumed;
  \<^item> \<open>iopub_thread_stop\<close>: \<^verbatim>\<open>kernel.iopub_thread.stop()\<close>;
  \<^item> \<open>kernel_stop\<close>: \<^verbatim>\<open>kernel.stop()\<close>.
  None of them assigns to the manager's slot by itself; the tasks that run during an
  await may, through the manager's methods.
\<close>

record collab =
  kernel_init :: "event list \<Rightarrow> handle \<Rightarrow> session \<Rightarrow> exn option"
  kernel_start :: "event list \<Rightarrow> handle \<Rightarrow> task_status \<Rightarrow> exn option"
  iopub_thread_stop :: "event list \<Rightarrow> handle \<Rightarrow> exn option"
  kernel_stop :: "event list \<Rightarrow> handle \<Rightarrow> exn option"

subsection \<open>Actions\<close>

type_synonym 'a action = "manager \<Rightarrow> (exn + 'a) \<times> manager"

definition ret :: "'a \<Rightarrow> 'a action" where
  "ret x s = (Inr x, s)"

definition raise :: "exn \<Rightarrow> 'a action" where
  "raise e s = (Inl e, s)"

text \<open>Sequencing: an exception of the first action ends the whole.\<close>

definition andthen :: "'a action \<Rightarrow> ('a \<Rightarrow> 'b action) \<Rightarrow> 'b action" where
  "andthen m f s = (case m s of (Inl e, s') \<Rightarrow> (Inl e, s') | (Inr x, s') \<Rightarrow> f x s')"

text \<open>Reading and assigning \<^verbatim>\<open>self.kernel\<close>, reading \<^verbatim>\<open>self.session\<close>.\<close>

definition get_kernel :: "handle option action" where
  "get_kernel s = (Inr (kernel s), s)"

definition set_kernel :: "handle option \<Rightarrow> unit action" where
  "set_kernel v s = (Inr (), s\<lparr>kernel := v, trace := trace s @ [SetKernel v]\<rparr>)"

definition get_session :: "session action" where
  "get_session s = (Inr (session s), s)"

text \<open>Allocating a kernel object, before its \<^verbatim>\<open>__init__\<close> runs.\<close>

definition new_object :: "handle action" where
  "new_object s = (Inr (allocated s), s\<lparr>allocated := Suc (allocated s)\<rparr>)"

text \<open>A call on a collaborator: logged, then it raises or returns.\<close>

definition external :: "event \<Rightarrow> (event list \<Rightarrow> exn option) \<Rightarrow> unit action" where
  "external ev outcome s =
     (case outcome (trace s) of
        Some e \<Rightarrow> (Inl e, s\<lparr>trace := trace s @ [ev]\<rparr>)
      | None \<Rightarrow> (Inr (), s\<lparr>trace := trace s @ [ev]\<rparr>))"

text \<open>
  An await on a collaborator's coroutine. The coroutine is entered, which is logged. The
  caller is then suspended: \<open>during\<close> is what the other tasks do to the manager until
  the caller is resumed (the identity when none touches it). The await then ends, by a
  raise or a return. An await that is never resumed has no outcome, and no manager after
  it: the model describes the awaits that end.
\<close>

definition entered :: "event \<Rightarrow> unit action" where
  "entered ev s = (Inr (), s\<lparr>trace := trace s @ [ev]\<rparr>)"

definition awaiting :: "(manager \<Rightarrow> manager) \<Rightarrow> (event list \<Rightarrow> exn option) \<Rightarrow> unit action" where
  "awaiting during outcome s =
     (case outcome (trace (during s)) of
        Some e \<Rightarrow> (Inl e, during s)
      | None \<Rightarrow> (Inr (), during s))"

text \<open>
  \<^verbatim>\<open>self.kernel.<name>\<close>: the slot is read again at every use; on \<^verbatim>\<open>None\<close> the
  attribute access raises.
\<close>

definition quoted :: "string \<Rightarrow> string" where
  "quoted name = CHR 0x27 # name @ [CHR 0x27]"

definition kernel_attr :: "string \<Rightarrow> handle action" where
  "kernel_attr name =
     andthen get_kernel (\<lambda>k.
       case k of
         None \<Rightarrow> raise (Exn ''AttributeError''
                    (quoted ''NoneType'' @ '' object has no attribute '' @ quoted name))
       | Some h \<Rightarrow> ret h)"

text \<open>
  \<^verbatim>\<open>if self.kernel:\<close> tests the truth value of the slot. \<^verbatim>\<open>None\<close> is false; a kernel
  object is true (the trait admits only \<^verbatim>\<open>InProcessKernel\<close> instances or \<^verbatim>\<open>None\<close>, and
  an instance is true as any object is).
\<close>

definition truthy :: "handle option \<Rightarrow> bool" where
  "truthy k = (case k of None \<Rightarrow> False | Some h \<Rightarrow> True)"

subsection \<open>The methods\<close>

text \<open>The manager as constructed: the slot's default is \<^verbatim>\<open>None\<close>.\<close>

definition default_session :: "string \<Rightarrow> session" where
  "default_session inprocess_key = \<lparr>key = inprocess_key\<rparr>"

definition new_manager :: "string \<Rightarrow> manager" where
  "new_manager inprocess_key =
     \<lparr>kernel = None, session = default_session inprocess_key, trace = [], allocated = 0\<rparr>"

text \<open>
  \<^verbatim>\<open>start_kernel\<close>, in two parts. The first runs the method up to its suspension: the
  kernel is constructed, assigned to the slot, and the coroutine of its \<^verbatim>\<open>start\<close> is
  entered. The second is the await of that coroutine.
\<close>

definition start_kernel_enter :: "collab \<Rightarrow> task_status \<Rightarrow> kwargs \<Rightarrow> handle action" where
  "start_kernel_enter c ts kwds =
     andthen get_session (\<lambda>sess.
     andthen new_object (\<lambda>h.
     andthen (external (Init h) (\<lambda>tr. kernel_init c tr h sess)) (\<lambda>_.
     andthen (set_kernel (Some h)) (\<lambda>_.
     andthen (kernel_attr ''start'') (\<lambda>k.
     andthen (entered (Start k ts)) (\<lambda>_.
       ret k))))))"

definition start_kernel ::
  "collab \<Rightarrow> task_status \<Rightarrow> kwargs \<Rightarrow> (manager \<Rightarrow> manager) \<Rightarrow> unit action" where
  "start_kernel c ts kwds during =
     andthen (start_kernel_enter c ts kwds) (\<lambda>k.
       awaiting during (\<lambda>tr. kernel_start c tr k ts))"

definition kill_kernel :: "collab \<Rightarrow> unit action" where
  "kill_kernel c =
     andthen get_kernel (\<lambda>k.
       if truthy k then
         andthen (kernel_attr ''stop'') (\<lambda>h.
         andthen (external (Stop h) (\<lambda>tr. kernel_stop c tr h)) (\<lambda>_.
           set_kernel None))
       else ret ())"

definition shutdown_kernel :: "collab \<Rightarrow> unit action" where
  "shutdown_kernel c =
     andthen get_kernel (\<lambda>k.
       if truthy k then
         andthen (kernel_attr ''iopub_thread'') (\<lambda>h.
         andthen (external (IopubStop h) (\<lambda>tr. iopub_thread_stop c tr h)) (\<lambda>_.
           kill_kernel c))
       else ret ())"

definition restart_kernel ::
  "collab \<Rightarrow> bool \<Rightarrow> bool \<Rightarrow> task_status \<Rightarrow> kwargs \<Rightarrow> (manager \<Rightarrow> manager) \<Rightarrow> unit action"
  where
  "restart_kernel c now newports ts kw during =
     andthen (shutdown_kernel c) (\<lambda>_. start_kernel c ts kw during)"

definition has_kernel :: "bool action" where
  "has_kernel = andthen get_kernel (\<lambda>k. ret (k \<noteq> None))"

definition interrupt_kernel :: "unit action" where
  "interrupt_kernel =
     raise (Exn ''NotImplementedError'' ''Cannot interrupt in-process kernel.'')"

definition signal_kernel :: "int \<Rightarrow> unit action" where
  "signal_kernel signum =
     raise (Exn ''NotImplementedError'' ''Cannot signal in-process kernel.'')"

definition is_alive :: "bool action" where
  "is_alive = andthen get_kernel (\<lambda>k. ret (k \<noteq> None))"

text \<open>The value stored under \<^verbatim>\<open>"kernel"\<close>: the slot as a Python value.\<close>

definition kernel_value :: "handle option \<Rightarrow> pyval" where
  "kernel_value k = (case k of None \<Rightarrow> PyNone | Some h \<Rightarrow> PyKernel h)"

text \<open>
  \<^verbatim>\<open>client\<close>: \<open>base\<close> is \<^verbatim>\<open>super().client\<close>, the client factory of the base class, which
  reads the manager and the keyword arguments and returns a client or raises.
\<close>

definition client :: "(manager \<Rightarrow> kwargs \<Rightarrow> exn + 'c) \<Rightarrow> kwargs \<Rightarrow> 'c action" where
  "client base kwargs =
     andthen get_kernel (\<lambda>k s. (base s (kwargs(''kernel'' \<mapsto> kernel_value k)), s))"

subsection \<open>Restart, as the specification words it\<close>

text \<open>
  The specification describes \<^verbatim>\<open>restart\<close> as \<^verbatim>\<open>shutdown()\<close> followed by \<^verbatim>\<open>start()\<close>
  with the same configuration. Written out as a caller would run the two calls: when
  the first raises, the second is not made.
\<close>

definition shutdown_then_start ::
  "collab \<Rightarrow> task_status \<Rightarrow> kwargs \<Rightarrow> (manager \<Rightarrow> manager) \<Rightarrow> unit action" where
  "shutdown_then_start c ts kw during s =
     (case shutdown_kernel c s of
        (Inl e, s1) \<Rightarrow> (Inl e, s1)
      | (Inr u, s1) \<Rightarrow> start_kernel c ts kw during s1)"

subsection \<open>The base client factory\<close>

record client_obj =
  client_kernel :: pyval
  client_kwargs :: kwargs

text \<open>
  Modelled from the spec: the client factory of the base class (\<^verbatim>\<open>KernelManager.client\<close>
  of jupyter_client, which is not in the sources). The specification gives its contract
  as "base behavior for producing a client bound to a kernel reference": it builds a
  client from the keyword arguments, bound to what \<^verbatim>\<open>"kernel"\<close> holds.
\<close>

definition base_client :: "manager \<Rightarrow> kwargs \<Rightarrow> exn + client_obj" where
  "base_client m kw =
     Inr \<lparr>client_kernel = (case kw ''kernel'' of None \<Rightarrow> PyNone | Some v \<Rightarrow> v),
          client_kwargs = kw\<rparr>"

subsection \<open>Histories of calls\<close>

text \<open>
  The tasks of the event loop drive the manager through a sequence of method calls. After
  a call that raised, they go on with the manager as the call left it. A call of
  \<^verbatim>\<open>start_kernel\<close> or \<^verbatim>\<open>restart_kernel\<close> carries the calls that other tasks make while it
  is suspended in its await.
\<close>

datatype call =
    CallStart task_status kwargs "call list"
  | CallShutdown
  | CallRestart bool bool task_status kwargs "call list"
  | CallInterrupt
  | CallSignal int
  | CallIsAlive
  | CallHasKernel
  | CallClient kwargs

fun perform :: "collab \<Rightarrow> (manager \<Rightarrow> kwargs \<Rightarrow> exn + 'c) \<Rightarrow> call \<Rightarrow> manager \<Rightarrow> manager"
  and perform_all :: "collab \<Rightarrow> (manager \<Rightarrow> kwargs \<Rightarrow> exn + 'c) \<Rightarrow> call list \<Rightarrow> manager \<Rightarrow> manager"
  where
  "perform c base (CallStart ts kw calls) =
     (\<lambda>s. snd (start_kernel c ts kw (perform_all c base calls) s))"
| "perform c base CallShutdown = (\<lambda>s. snd (shutdown_kernel c s))"
| "perform c base (CallRestart now newports ts kw calls) =
     (\<lambda>s. snd (restart_kernel c now newports ts kw (perform_all c base calls) s))"
| "perform c base CallInterrupt = (\<lambda>s. snd (interrupt_kernel s))"
| "perform c base (CallSignal n) = (\<lambda>s. snd (signal_kernel n s))"
| "perform c base CallIsAlive = (\<lambda>s. snd (is_alive s))"
| "perform c base CallHasKernel = (\<lambda>s. snd (has_kernel s))"
| "perform c base (CallClient kw) = (\<lambda>s. snd (client base kw s))"
| "perform_all c base [] = (\<lambda>s. s)"
| "perform_all c base (x # xs) = (\<lambda>s. perform_all c base xs (perform c base x s))"

text \<open>The calls that run \<^verbatim>\<open>start_kernel\<close>.\<close>

fun starts :: "call \<Rightarrow> bool" where
  "starts (CallStart ts kw calls) = True"
| "starts (CallRestart now newports ts kw calls) = True"
| "starts x = False"

text \<open>
  The calls that run \<^verbatim>\<open>shutdown_kernel\<close>, by themselves or through a call made during
  their await.
\<close>

fun clears :: "call \<Rightarrow> bool"
  and clears_any :: "call list \<Rightarrow> bool" where
  "clears (CallStart ts kw calls) = clears_any calls"
| "clears CallShutdown = True"
| "clears (CallRestart now newports ts kw calls) = True"
| "clears CallInterrupt = False"
| "clears (CallSignal n) = False"
| "clears CallIsAlive = False"
| "clears CallHasKernel = False"
| "clears (CallClient kw) = False"
| "clears_any [] = False"
| "clears_any (x # xs) = (clears x \<or> clears_any xs)"

subsection \<open>Sample collaborators\<close>

text \<open>Collaborators whose calls all return, and two whose kernel fails to come up.\<close>

definition obliging :: collab where
  "obliging =
     \<lparr>kernel_init = (\<lambda>tr h sess. None), kernel_start = (\<lambda>tr h ts. None),
      iopub_thread_stop = (\<lambda>tr h. None), kernel_stop = (\<lambda>tr h. None)\<rparr>"

definition failing_init :: "exn \<Rightarrow> collab" where
  "failing_init e = obliging\<lparr>kernel_init := (\<lambda>tr h sess. Some e)\<rparr>"

definition failing_start :: "exn \<Rightarrow> collab" where
  "failing_start e = obliging\<lparr>kernel_start := (\<lambda>tr h ts. Some e)\<rparr>"

section \<open>Properties\<close>

lemma get_kernel_then [simp]: "andthen get_kernel f s = f (kernel s) s"
  by (simp add: andthen_def get_kernel_def)

text \<open>What \<^verbatim>\<open>start_kernel\<close> does up to its await, and as a whole.\<close>

lemma start_kernel_enter_steps:
  "start_kernel_enter c ts kw s =
     (case kernel_init c (trace s) (allocated s) (session s) of
        Some e \<Rightarrow>
          (Inl e, s\<lparr>allocated := Suc (allocated s), trace := trace s @ [Init (allocated s)]\<rparr>)
      | None \<Rightarrow>
          (Inr (allocated s),
           s\<lparr>allocated := Suc (allocated s), kernel := Some (allocated s),
             trace := trace s @ [Init (allocated s), SetKernel (Some (allocated s)),
                                Start (allocated s) ts]\<rparr>))"
  by (simp add: start_kernel_enter_def andthen_def new_object_def get_session_def external_def
      set_kernel_def kernel_attr_def get_kernel_def entered_def ret_def split: option.splits)

lemma start_kernel_init_raises:
  "kernel_init c (trace s) (allocated s) (session s) = Some e \<Longrightarrow>
   start_kernel c ts kw during s = (Inl e, snd (start_kernel_enter c ts kw s))"
  by (simp add: start_kernel_def andthen_def start_kernel_enter_steps)

lemma start_kernel_awaited:
  "kernel_init c (trace s) (allocated s) (session s) = None \<Longrightarrow>
   start_kernel c ts kw during s =
     (case kernel_start c (trace (during (snd (start_kernel_enter c ts kw s)))) (allocated s) ts of
        Some e \<Rightarrow> (Inl e, during (snd (start_kernel_enter c ts kw s)))
      | None \<Rightarrow> (Inr (), during (snd (start_kernel_enter c ts kw s))))"
  by (simp add: start_kernel_def andthen_def awaiting_def start_kernel_enter_steps
      split: option.splits)

lemma enter_slot_held:
  "kernel_init c (trace s) (allocated s) (session s) = None \<Longrightarrow>
   kernel (snd (start_kernel_enter c ts kw s)) = Some (allocated s)"
  by (simp add: start_kernel_enter_steps)

lemma enter_slot_kept:
  "kernel_init c (trace s) (allocated s) (session s) = Some e \<Longrightarrow>
   kernel (snd (start_kernel_enter c ts kw s)) = kernel s"
  by (simp add: start_kernel_enter_steps)

lemma start_kernel_returned:
  assumes "start_kernel c ts kw during s = (Inr u, s')"
  shows "kernel_init c (trace s) (allocated s) (session s) = None
         \<and> s' = during (snd (start_kernel_enter c ts kw s))"
proof (cases "kernel_init c (trace s) (allocated s) (session s)")
  case None
  with assms show ?thesis
    by (auto simp add: start_kernel_awaited split: option.splits)
next
  case (Some e)
  with assms show ?thesis
    by (simp add: start_kernel_init_raises)
qed

text \<open>What \<^verbatim>\<open>shutdown_kernel\<close> does: nothing on an empty slot, three steps on a held one.\<close>

lemma shutdown_kernel_empty: "kernel s = None \<Longrightarrow> shutdown_kernel c s = (Inr (), s)"
  by (simp add: shutdown_kernel_def truthy_def ret_def)

lemma shutdown_kernel_held:
  "kernel s = Some h \<Longrightarrow>
   shutdown_kernel c s =
     (case iopub_thread_stop c (trace s) h of
        Some e \<Rightarrow> (Inl e, s\<lparr>trace := trace s @ [IopubStop h]\<rparr>)
      | None \<Rightarrow>
          (case kernel_stop c (trace s @ [IopubStop h]) h of
             Some e \<Rightarrow> (Inl e, s\<lparr>trace := trace s @ [IopubStop h, Stop h]\<rparr>)
           | None \<Rightarrow>
               (Inr (), s\<lparr>kernel := None,
                  trace := trace s @ [IopubStop h, Stop h, SetKernel None]\<rparr>)))"
  by (simp add: shutdown_kernel_def kill_kernel_def truthy_def andthen_def external_def
      set_kernel_def kernel_attr_def get_kernel_def ret_def split: option.splits)

lemma shutdown_kernel_returns:
  "shutdown_kernel c s = (Inr u, s') \<Longrightarrow> kernel s' = None"
proof (cases "kernel s")
  case None
  assume "shutdown_kernel c s = (Inr u, s')"
  with None show ?thesis by (simp add: shutdown_kernel_empty)
next
  case (Some h)
  assume "shutdown_kernel c s = (Inr u, s')"
  with Some show ?thesis
    by (auto simp add: shutdown_kernel_held split: option.splits)
qed

text \<open>Calls that start nothing keep an empty slot empty.\<close>

lemma perform_keeps_empty:
  "\<not> starts x \<Longrightarrow> kernel s = None \<Longrightarrow> kernel (perform c base x s) = None"
  by (cases x)
     (simp_all add: shutdown_kernel_empty interrupt_kernel_def signal_kernel_def raise_def
        is_alive_def has_kernel_def ret_def client_def)

lemma perform_all_keeps_empty:
  "\<forall>x\<in>set xs. \<not> starts x \<Longrightarrow> kernel s = None \<Longrightarrow> kernel (perform_all c base xs s) = None"
  by (induction xs arbitrary: s) (simp_all add: perform_keeps_empty)

lemma client_empty:
  "kernel s = None \<Longrightarrow> client base kw s = (base s (kw(''kernel'' \<mapsto> PyNone)), s)"
  by (simp add: client_def kernel_value_def)

text \<open>Calls that shut nothing down keep a held slot held.\<close>

lemma start_kernel_keeps_held:
  assumes during: "\<And>t. kernel t \<noteq> None \<Longrightarrow> kernel (during t) \<noteq> None"
      and held: "kernel s \<noteq> None"
  shows "kernel (snd (start_kernel c ts kw during s)) \<noteq> None"
proof (cases "kernel_init c (trace s) (allocated s) (session s)")
  case None
  then have "kernel (snd (start_kernel_enter c ts kw s)) \<noteq> None"
    by (simp add: enter_slot_held)
  then have "kernel (during (snd (start_kernel_enter c ts kw s))) \<noteq> None"
    by (rule during)
  with None show ?thesis
    by (simp add: start_kernel_awaited split: option.splits)
next
  case (Some e)
  with held show ?thesis
    by (simp add: start_kernel_init_raises enter_slot_kept)
qed

lemma perform_keeps_held:
  "\<not> clears x \<Longrightarrow> kernel s \<noteq> None \<Longrightarrow> kernel (perform c base x s) \<noteq> None"
  "\<not> clears_any xs \<Longrightarrow> kernel s \<noteq> None \<Longrightarrow> kernel (perform_all c base xs s) \<noteq> None"
proof (induction x and xs arbitrary: s and s rule: clears_clears_any.induct)
  case (1 ts kw calls)
  from 1(2) have "\<not> clears_any calls" by simp
  then have "\<And>t. kernel t \<noteq> None \<Longrightarrow> kernel (perform_all c base calls t) \<noteq> None"
    by (rule 1(1))
  then have "kernel (snd (start_kernel c ts kw (perform_all c base calls) s)) \<noteq> None"
    using 1(3) by (rule start_kernel_keeps_held)
  then show ?case by simp
qed (simp_all add: interrupt_kernel_def signal_kernel_def raise_def is_alive_def
       has_kernel_def ret_def client_def)

lemma start_kernel_steps:
  "start_kernel c ts kw during s =
     (case kernel_init c (trace s) (allocated s) (session s) of
        Some e \<Rightarrow>
          (Inl e, s\<lparr>allocated := Suc (allocated s), trace := trace s @ [Init (allocated s)]\<rparr>)
      | None \<Rightarrow>
          (case kernel_start c
                  (trace (during (s\<lparr>allocated := Suc (allocated s), kernel := Some (allocated s),
                     trace := trace s @ [Init (allocated s), SetKernel (Some (allocated s)),
                                        Start (allocated s) ts]\<rparr>)))
                  (allocated s) ts of
             Some e \<Rightarrow>
               (Inl e, during (s\<lparr>allocated := Suc (allocated s), kernel := Some (allocated s),
                  trace := trace s @ [Init (allocated s), SetKernel (Some (allocated s)),
                                     Start (allocated s) ts]\<rparr>))
           | None \<Rightarrow>
               (Inr (), during (s\<lparr>allocated := Suc (allocated s), kernel := Some (allocated s),
                  trace := trace s @ [Init (allocated s), SetKernel (Some (allocated s)),
                                     Start (allocated s) ts]\<rparr>))))"
  by (simp add: start_kernel_def andthen_def awaiting_def start_kernel_enter_steps
      split: option.splits)

lemmas run_defs =
  start_kernel_def start_kernel_enter_def shutdown_kernel_def kill_kernel_def
  andthen_def new_object_def get_session_def external_def entered_def awaiting_def
  set_kernel_def kernel_attr_def get_kernel_def ret_def truthy_def new_manager_def

text \<open>
  C1. In every state of the manager, \<^verbatim>\<open>is_alive()\<close> returns true exactly when the slot
  holds a kernel handle, and the manager after the call is the manager before it.
\<close>

theorem is_alive_iff_handle:
  "is_alive s = (Inr (kernel s \<noteq> None), s)"
  by (simp add: is_alive_def ret_def)

text \<open>
  C2, as amended. A start followed by a shutdown. When \<^verbatim>\<open>start_kernel\<close> has completed,
  \<^verbatim>\<open>is_alive()\<close> was true at the point where the call entered the kernel's \<^verbatim>\<open>start\<close>
  and was suspended, and it is true after the call, provided that no call made on the
  manager during the await ran \<^verbatim>\<open>shutdown_kernel\<close>. When \<^verbatim>\<open>shutdown_kernel\<close> has then
  returned, \<^verbatim>\<open>is_alive()\<close> returns false.
\<close>

theorem start_undisturbed_then_shutdown_alive:
  assumes "start_kernel c ts kw (perform_all c base calls) s = (Inr (), s1)"
      and "shutdown_kernel c s1 = (Inr (), s2)"
  shows "fst (is_alive (snd (start_kernel_enter c ts kw s))) = Inr True
         \<and> (\<not> clears_any calls \<longrightarrow> is_alive s1 = (Inr True, s1))
         \<and> is_alive s2 = (Inr False, s2)"
proof -
  from assms(1) have init: "kernel_init c (trace s) (allocated s) (session s) = None"
    and s1: "s1 = perform_all c base calls (snd (start_kernel_enter c ts kw s))"
    by (simp_all add: start_kernel_returned)
  from init have held: "kernel (snd (start_kernel_enter c ts kw s)) \<noteq> None"
    by (simp add: enter_slot_held)
  then have a: "fst (is_alive (snd (start_kernel_enter c ts kw s))) = Inr True"
    by (simp add: is_alive_def ret_def)
  have b: "\<not> clears_any calls \<longrightarrow> is_alive s1 = (Inr True, s1)"
  proof
    assume "\<not> clears_any calls"
    then have "kernel s1 \<noteq> None"
      unfolding s1 using held by (rule perform_keeps_held(2))
    then show "is_alive s1 = (Inr True, s1)"
      by (simp add: is_alive_def ret_def)
  qed
  from assms(2) have "kernel s2 = None" by (rule shutdown_kernel_returns)
  then have "is_alive s2 = (Inr False, s2)"
    by (simp add: is_alive_def ret_def)
  with a b show ?thesis by simp
qed

theorem start_undisturbed_then_shutdown_alive_witness:
  "fst (is_alive (snd (start_kernel_enter obliging TASK_STATUS_IGNORED Map.empty
          (new_manager ''inprocess'')))) = Inr True
   \<and> fst (is_alive (snd (start_kernel obliging TASK_STATUS_IGNORED Map.empty
          (perform_all obliging base_client [CallIsAlive, CallInterrupt])
          (new_manager ''inprocess'')))) = Inr True
   \<and> fst (is_alive (snd (shutdown_kernel obliging
        (snd (start_kernel obliging TASK_STATUS_IGNORED Map.empty
          (perform_all obliging base_client [CallIsAlive, CallInterrupt])
          (new_manager ''inprocess'')))))) = Inr False"
proof -
  let ?calls = "[CallIsAlive, CallInterrupt]"
  let ?start = "start_kernel obliging TASK_STATUS_IGNORED Map.empty
          (perform_all obliging base_client ?calls) (new_manager ''inprocess'')"
  have "fst ?start = Inr ()"
    by (simp add: start_kernel_awaited obliging_def)
  then have h1: "?start = (Inr (), snd ?start)"
    by (simp add: prod_eq_iff)
  have k: "kernel (snd ?start) = Some 0"
    by (simp add: start_kernel_awaited start_kernel_enter_steps obliging_def new_manager_def
        interrupt_kernel_def raise_def is_alive_def ret_def)
  have "fst (shutdown_kernel obliging (snd ?start)) = Inr ()"
    using shutdown_kernel_held [OF k, of obliging] by (simp add: obliging_def)
  then have h2: "shutdown_kernel obliging (snd ?start)
      = (Inr (), snd (shutdown_kernel obliging (snd ?start)))"
    by (simp add: prod_eq_iff)
  have h3: "\<not> clears_any ?calls"
    by simp
  from start_undisturbed_then_shutdown_alive [OF h1 h2] h3 show ?thesis
    by simp
qed

text \<open>
  C2 as stated fails: \<^verbatim>\<open>start_kernel\<close> is suspended in its await, another task calls
  \<^verbatim>\<open>shutdown_kernel\<close>, the await ends and \<^verbatim>\<open>start_kernel\<close> returns; the slot is empty and
  \<^verbatim>\<open>is_alive()\<close> returns false right after the start completed.
\<close>

theorem start_completed_not_alive_counterexample:
  "start_kernel obliging TASK_STATUS_IGNORED Map.empty
     (perform_all obliging base_client [CallShutdown]) (new_manager ''inprocess'')
   = (Inr (),
      \<lparr>kernel = None, session = default_session ''inprocess'',
       trace = [Init 0, SetKernel (Some 0), Start 0 TASK_STATUS_IGNORED,
                IopubStop 0, Stop 0, SetKernel None],
       allocated = Suc 0\<rparr>)
   \<and> is_alive
       \<lparr>kernel = None, session = default_session ''inprocess'',
        trace = [Init 0, SetKernel (Some 0), Start 0 TASK_STATUS_IGNORED,
                 IopubStop 0, Stop 0, SetKernel None],
        allocated = Suc 0\<rparr>
     = (Inr False,
        \<lparr>kernel = None, session = default_session ''inprocess'',
         trace = [Init 0, SetKernel (Some 0), Start 0 TASK_STATUS_IGNORED,
                  IopubStop 0, Stop 0, SetKernel None],
         allocated = Suc 0\<rparr>)"
  by (simp add: run_defs is_alive_def obliging_def)

text \<open>
  C3. \<^verbatim>\<open>shutdown_kernel\<close> on a manager that holds no kernel handle returns without an
  error and leaves the manager as it was, so \<^verbatim>\<open>is_alive()\<close> is still false. Hence a
  second \<^verbatim>\<open>shutdown_kernel\<close>, right after one that returned, returns too and changes
  nothing.
\<close>

theorem shutdown_without_kernel_noop:
  "(kernel s = None \<longrightarrow>
      shutdown_kernel c s = (Inr (), s) \<and> is_alive (snd (shutdown_kernel c s)) = (Inr False, s))
   \<and> (shutdown_kernel c s = (Inr (), s1) \<longrightarrow> shutdown_kernel c s1 = (Inr (), s1))"
proof (intro conjI impI)
  assume "kernel s = None"
  then show "shutdown_kernel c s = (Inr (), s)" by (rule shutdown_kernel_empty)
next
  assume n: "kernel s = None"
  then have "shutdown_kernel c s = (Inr (), s)" by (rule shutdown_kernel_empty)
  with n show "is_alive (snd (shutdown_kernel c s)) = (Inr False, s)"
    by (simp add: is_alive_def ret_def)
next
  assume "shutdown_kernel c s = (Inr (), s1)"
  then have "kernel s1 = None" by (rule shutdown_kernel_returns)
  then show "shutdown_kernel c s1 = (Inr (), s1)" by (rule shutdown_kernel_empty)
qed

theorem shutdown_without_kernel_noop_witness:
  "(shutdown_kernel obliging (new_manager ''inprocess'') = (Inr (), new_manager ''inprocess'')
    \<and> is_alive (snd (shutdown_kernel obliging (new_manager ''inprocess'')))
        = (Inr False, new_manager ''inprocess''))
   \<and> shutdown_kernel obliging
        (snd (shutdown_kernel obliging
          (snd (start_kernel obliging TASK_STATUS_IGNORED Map.empty id (new_manager ''inprocess'')))))
      = (Inr (), snd (shutdown_kernel obliging
          (snd (start_kernel obliging TASK_STATUS_IGNORED Map.empty id (new_manager ''inprocess'')))))"
proof -
  let ?s = "snd (start_kernel obliging TASK_STATUS_IGNORED Map.empty id (new_manager ''inprocess''))"
  have h1: "kernel (new_manager ''inprocess'') = None"
    by (simp add: new_manager_def)
  have "fst (shutdown_kernel obliging ?s) = Inr ()"
    by (simp add: start_kernel_steps shutdown_kernel_held obliging_def)
  then have h2: "shutdown_kernel obliging ?s = (Inr (), snd (shutdown_kernel obliging ?s))"
    by (simp add: prod_eq_iff)
  from shutdown_without_kernel_noop [THEN conjunct1, THEN mp, OF h1]
       shutdown_without_kernel_noop [THEN conjunct2, THEN mp, OF h2]
  show ?thesis by (rule conjI)
qed

text \<open>
  C4. For every value of the flags \<^verbatim>\<open>now\<close> and \<^verbatim>\<open>newports\<close>, \<^verbatim>\<open>restart_kernel\<close> has the
  outcome and the effect of \<^verbatim>\<open>shutdown_kernel()\<close> followed by \<^verbatim>\<open>start_kernel\<close> with the
  same task status and keyword arguments, whatever happens during the await; the flags
  change nothing.
\<close>

theorem restart_is_shutdown_then_start:
  "restart_kernel c now newports ts kw during s = shutdown_then_start c ts kw during s
   \<and> restart_kernel c now newports ts kw during s
       = restart_kernel c now' newports' ts kw during s"
  by (simp add: restart_kernel_def shutdown_then_start_def andthen_def
      split: prod.splits sum.splits)

text \<open>
  C5. In every state of the manager and for every signal number,
  \<^verbatim>\<open>interrupt_kernel()\<close> and \<^verbatim>\<open>signal_kernel(n)\<close> raise \<^verbatim>\<open>NotImplementedError\<close> (the
  specification's UnsupportedOperation) with a fixed message; they never return.
\<close>

theorem interrupt_signal_raise:
  "interrupt_kernel s =
     (Inl (Exn ''NotImplementedError'' ''Cannot interrupt in-process kernel.''), s)
   \<and> signal_kernel n s =
     (Inl (Exn ''NotImplementedError'' ''Cannot signal in-process kernel.''), s)"
  by (simp add: interrupt_kernel_def signal_kernel_def raise_def)

text \<open>
  C6. Before any start: after any calls on a new manager among which none runs
  \<^verbatim>\<open>start_kernel\<close>, \<^verbatim>\<open>client\<close> hands the base factory the caller's options with
  \<^verbatim>\<open>"kernel"\<close> set to \<^verbatim>\<open>None\<close>, adds no error of its own and leaves the manager
  unchanged. With the base factory of the specification the call returns a client bound
  to \<^verbatim>\<open>None\<close>.
\<close>

theorem client_before_start:
  assumes "\<forall>x\<in>set calls. \<not> starts x"
  shows "client base kw (perform_all c base calls (new_manager k))
           = (base (perform_all c base calls (new_manager k)) (kw(''kernel'' \<mapsto> PyNone)),
              perform_all c base calls (new_manager k))
         \<and> (\<exists>cl. fst (client base_client kw (perform_all c base_client calls (new_manager k)))
                    = Inr cl
                  \<and> client_kernel cl = PyNone)"
proof -
  have n: "kernel (new_manager k) = None"
    by (simp add: new_manager_def)
  have "kernel (perform_all c base calls (new_manager k)) = None"
    using assms n by (rule perform_all_keeps_empty)
  then have first: "client base kw (perform_all c base calls (new_manager k))
           = (base (perform_all c base calls (new_manager k)) (kw(''kernel'' \<mapsto> PyNone)),
              perform_all c base calls (new_manager k))"
    by (rule client_empty)
  have "kernel (perform_all c base_client calls (new_manager k)) = None"
    using assms n by (rule perform_all_keeps_empty)
  then have "client base_client kw (perform_all c base_client calls (new_manager k))
           = (base_client (perform_all c base_client calls (new_manager k))
                (kw(''kernel'' \<mapsto> PyNone)),
              perform_all c base_client calls (new_manager k))"
    by (rule client_empty)
  then have "\<exists>cl. fst (client base_client kw (perform_all c base_client calls (new_manager k)))
                    = Inr cl
                  \<and> client_kernel cl = PyNone"
    by (simp add: base_client_def)
  with first show ?thesis by (rule conjI)
qed

theorem client_before_start_witness:
  "fst (client base_client [''kernel'' \<mapsto> PyKernel 7]
          (perform_all obliging base_client
             [CallIsAlive, CallShutdown, CallInterrupt, CallClient Map.empty]
             (new_manager ''inprocess'')))
     = Inr \<lparr>client_kernel = PyNone, client_kwargs = [''kernel'' \<mapsto> PyNone]\<rparr>"
proof -
  have h: "\<forall>x\<in>set [CallIsAlive, CallShutdown, CallInterrupt, CallClient Map.empty]. \<not> starts x"
    by simp
  from client_before_start [OF h, of base_client "[''kernel'' \<mapsto> PyKernel 7]" obliging
      "''inprocess''", THEN conjunct1]
  show ?thesis by (simp add: base_client_def)
qed

text \<open>
  C7. \<^verbatim>\<open>shutdown_kernel\<close> on a manager that holds a handle first calls the stop of the
  kernel's iopub thread, then the kernel's stop, and clears the slot last. The slot is
  cleared exactly when the call returns, and then both stops have returned; when one of
  them raises, the call raises and the handle is still held.
\<close>

theorem shutdown_stops_iopub_first:
  assumes "kernel s = Some h" and "shutdown_kernel c s = (r, s')"
  shows "(r = Inr () \<and> iopub_thread_stop c (trace s) h = None
            \<and> kernel_stop c (trace s @ [IopubStop h]) h = None
            \<and> kernel s' = None
            \<and> trace s' = trace s @ [IopubStop h, Stop h, SetKernel None])
         \<or> ((\<exists>e. r = Inl e) \<and> kernel s' = Some h
            \<and> (trace s' = trace s @ [IopubStop h] \<or> trace s' = trace s @ [IopubStop h, Stop h]))"
  using assms by (auto simp add: shutdown_kernel_held split: option.splits)

theorem shutdown_stops_iopub_first_witness:
  "kernel (snd (shutdown_kernel obliging
      (snd (start_kernel obliging TASK_STATUS_IGNORED Map.empty id (new_manager ''inprocess''))))) = None
   \<and> trace (snd (shutdown_kernel obliging
      (snd (start_kernel obliging TASK_STATUS_IGNORED Map.empty id (new_manager ''inprocess'')))))
     = [Init 0, SetKernel (Some 0), Start 0 TASK_STATUS_IGNORED,
        IopubStop 0, Stop 0, SetKernel None]"
proof -
  let ?s = "snd (start_kernel obliging TASK_STATUS_IGNORED Map.empty id (new_manager ''inprocess''))"
  have h1: "kernel ?s = Some 0"
    by (simp add: start_kernel_steps obliging_def new_manager_def)
  have t: "trace ?s = [Init 0, SetKernel (Some 0), Start 0 TASK_STATUS_IGNORED]"
    by (simp add: start_kernel_steps obliging_def new_manager_def)
  have "fst (shutdown_kernel obliging ?s) = Inr ()"
    by (simp add: shutdown_kernel_held [OF h1]) (simp add: obliging_def)
  then have h2: "shutdown_kernel obliging ?s = (Inr (), snd (shutdown_kernel obliging ?s))"
    by (simp add: prod_eq_iff)
  from shutdown_stops_iopub_first [OF h1 h2] show ?thesis
    by (simp add: t)
qed

text \<open>
  C8. An exception raised by the construction of the kernel, or by the await of its
  \<^verbatim>\<open>start\<close>, is the exception \<^verbatim>\<open>start_kernel\<close> raises, unchanged, whatever happens
  during the await; \<^verbatim>\<open>start_kernel\<close> raises no other exception; and an exception of the
  \<^verbatim>\<open>start_kernel\<close> that \<^verbatim>\<open>restart_kernel\<close> runs after its shutdown is the exception
  \<^verbatim>\<open>restart_kernel\<close> raises, unchanged.
\<close>

theorem startup_errors_propagate:
  "(kernel_init c (trace s) (allocated s) (session s) = Some e \<longrightarrow>
      fst (start_kernel c ts kw during s) = Inl e)
   \<and> (kernel_init c (trace s) (allocated s) (session s) = None
      \<and> kernel_start c (trace (during (snd (start_kernel_enter c ts kw s))))
           (allocated s) ts = Some e \<longrightarrow>
      fst (start_kernel c ts kw during s) = Inl e)
   \<and> (fst (start_kernel c ts kw during s) = Inl e \<longrightarrow>
      kernel_init c (trace s) (allocated s) (session s) = Some e
      \<or> kernel_start c (trace (during (snd (start_kernel_enter c ts kw s))))
           (allocated s) ts = Some e)
   \<and> (shutdown_kernel c s = (Inr (), s1) \<and> start_kernel c ts kw during s1 = (Inl e, s2) \<longrightarrow>
      restart_kernel c now newports ts kw during s = (Inl e, s2))"
proof (intro conjI impI)
  assume "kernel_init c (trace s) (allocated s) (session s) = Some e"
  then show "fst (start_kernel c ts kw during s) = Inl e"
    by (simp add: start_kernel_init_raises)
next
  assume "kernel_init c (trace s) (allocated s) (session s) = None
      \<and> kernel_start c (trace (during (snd (start_kernel_enter c ts kw s))))
           (allocated s) ts = Some e"
  then show "fst (start_kernel c ts kw during s) = Inl e"
    by (simp add: start_kernel_awaited)
next
  assume raised: "fst (start_kernel c ts kw during s) = Inl e"
  show "kernel_init c (trace s) (allocated s) (session s) = Some e
      \<or> kernel_start c (trace (during (snd (start_kernel_enter c ts kw s))))
           (allocated s) ts = Some e"
  proof (cases "kernel_init c (trace s) (allocated s) (session s)")
    case None
    with raised show ?thesis
      by (auto simp add: start_kernel_awaited split: option.splits)
  next
    case (Some e')
    with raised show ?thesis
      by (simp add: start_kernel_init_raises)
  qed
next
  assume "shutdown_kernel c s = (Inr (), s1) \<and> start_kernel c ts kw during s1 = (Inl e, s2)"
  then show "restart_kernel c now newports ts kw during s = (Inl e, s2)"
    by (simp add: restart_kernel_def andthen_def)
qed

theorem startup_errors_propagate_witness:
  "fst (start_kernel (failing_init (Exn ''ImportError'' ''no shell'')) TASK_STATUS_IGNORED
          Map.empty id (new_manager ''inprocess'')) = Inl (Exn ''ImportError'' ''no shell'')
   \<and> fst (start_kernel (failing_start (Exn ''RuntimeError'' ''boom'')) (TaskStatus 1)
          Map.empty id (new_manager ''inprocess'')) = Inl (Exn ''RuntimeError'' ''boom'')
   \<and> (kernel_init (failing_start (Exn ''RuntimeError'' ''boom'')) [] 0
          (default_session ''inprocess'') = Some (Exn ''RuntimeError'' ''boom'')
       \<or> kernel_start (failing_start (Exn ''RuntimeError'' ''boom''))
          [Init 0, SetKernel (Some 0), Start 0 (TaskStatus 1)] 0 (TaskStatus 1)
          = Some (Exn ''RuntimeError'' ''boom''))
   \<and> fst (restart_kernel (failing_start (Exn ''RuntimeError'' ''boom'')) True False
          (TaskStatus 1) Map.empty id (new_manager ''inprocess''))
       = Inl (Exn ''RuntimeError'' ''boom'')"
proof -
  let ?m = "new_manager ''inprocess''"
  let ?e = "Exn ''ImportError'' ''no shell''"
  let ?b = "Exn ''RuntimeError'' ''boom''"
  let ?at = "snd (start_kernel_enter (failing_start ?b) (TaskStatus 1) Map.empty ?m)"
  have m: "trace ?m = []" "allocated ?m = 0" "session ?m = default_session ''inprocess''"
    by (simp_all add: new_manager_def)
  have at: "trace (id ?at) = [Init 0, SetKernel (Some 0), Start 0 (TaskStatus 1)]"
    by (simp add: start_kernel_enter_steps failing_start_def obliging_def new_manager_def)
  have h1: "kernel_init (failing_init ?e) (trace ?m) (allocated ?m) (session ?m) = Some ?e"
    by (simp add: failing_init_def)
  have h2: "kernel_init (failing_start ?b) (trace ?m) (allocated ?m) (session ?m) = None
      \<and> kernel_start (failing_start ?b) (trace (id ?at)) (allocated ?m) (TaskStatus 1) = Some ?b"
    by (simp add: failing_start_def obliging_def)
  have a: "fst (start_kernel (failing_init ?e) TASK_STATUS_IGNORED Map.empty id ?m) = Inl ?e"
    by (rule startup_errors_propagate [where during = id, THEN conjunct1, THEN mp, OF h1])
  have b: "fst (start_kernel (failing_start ?b) (TaskStatus 1) Map.empty id ?m) = Inl ?b"
    by (rule startup_errors_propagate
          [where during = id, THEN conjunct2, THEN conjunct1, THEN mp, OF h2])
  have c: "kernel_init (failing_start ?b) (trace ?m) (allocated ?m) (session ?m) = Some ?b
      \<or> kernel_start (failing_start ?b) (trace (id ?at)) (allocated ?m) (TaskStatus 1) = Some ?b"
    by (rule startup_errors_propagate
          [where during = id, THEN conjunct2, THEN conjunct2, THEN conjunct1, THEN mp, OF b])
  have h3: "shutdown_kernel (failing_start ?b) ?m = (Inr (), ?m)"
    by (simp add: shutdown_kernel_empty new_manager_def)
  from b have h4: "start_kernel (failing_start ?b) (TaskStatus 1) Map.empty id ?m
      = (Inl ?b, snd (start_kernel (failing_start ?b) (TaskStatus 1) Map.empty id ?m))"
    by (simp add: prod_eq_iff)
  have d: "restart_kernel (failing_start ?b) True False (TaskStatus 1) Map.empty id ?m
      = (Inl ?b, snd (start_kernel (failing_start ?b) (TaskStatus 1) Map.empty id ?m))"
    by (rule startup_errors_propagate
          [where during = id, THEN conjunct2, THEN conjunct2, THEN conjunct2, THEN mp,
           OF conjI [OF h3 h4]])
  from a b c d show ?thesis by (simp only: m at fst_conv)
qed

text \<open>
  C9, as amended. When the construction of the kernel returns and the await of its
  \<^verbatim>\<open>start\<close> raises, the slot was assigned the new handle before the await and
  \<^verbatim>\<open>start_kernel\<close> does not roll it back: the manager after the failed start is the
  manager as the calls made during the await left it. When none of those calls ran
  \<^verbatim>\<open>shutdown_kernel\<close>, \<^verbatim>\<open>is_alive()\<close> returns true after the failed start; when no call
  was made at all, the slot holds the new handle.
\<close>

theorem failed_start_no_rollback:
  assumes "kernel_init c (trace s) (allocated s) (session s) = None"
      and "kernel_start c (trace (perform_all c base calls (snd (start_kernel_enter c ts kw s))))
             (allocated s) ts = Some e"
  shows "kernel (snd (start_kernel_enter c ts kw s)) = Some (allocated s)
         \<and> start_kernel c ts kw (perform_all c base calls) s
             = (Inl e, perform_all c base calls (snd (start_kernel_enter c ts kw s)))
         \<and> (\<not> clears_any calls \<longrightarrow>
              fst (is_alive (snd (start_kernel c ts kw (perform_all c base calls) s))) = Inr True)
         \<and> (calls = [] \<longrightarrow>
              kernel (snd (start_kernel c ts kw (perform_all c base calls) s))
                = Some (allocated s))"
proof -
  let ?at = "snd (start_kernel_enter c ts kw s)"
  from assms(1) have held: "kernel ?at = Some (allocated s)"
    by (rule enter_slot_held)
  from assms have run: "start_kernel c ts kw (perform_all c base calls) s
      = (Inl e, perform_all c base calls ?at)"
    by (simp add: start_kernel_awaited)
  have alive: "\<not> clears_any calls \<longrightarrow>
      fst (is_alive (snd (start_kernel c ts kw (perform_all c base calls) s))) = Inr True"
  proof
    assume quiet: "\<not> clears_any calls"
    from held have "kernel ?at \<noteq> None" by simp
    with quiet have "kernel (perform_all c base calls ?at) \<noteq> None"
      by (rule perform_keeps_held(2))
    then show "fst (is_alive (snd (start_kernel c ts kw (perform_all c base calls) s))) = Inr True"
      by (simp add: run is_alive_def ret_def)
  qed
  have alone: "calls = [] \<longrightarrow>
      kernel (snd (start_kernel c ts kw (perform_all c base calls) s)) = Some (allocated s)"
  proof
    assume none: "calls = []"
    have "kernel (snd (start_kernel c ts kw (perform_all c base calls) s))
        = kernel (perform_all c base calls ?at)"
      by (simp only: run snd_conv)
    also have "\<dots> = kernel ?at"
      by (simp add: none)
    also note held
    finally show "kernel (snd (start_kernel c ts kw (perform_all c base calls) s))
        = Some (allocated s)" .
  qed
  from held run alive alone show ?thesis by blast
qed

theorem failed_start_no_rollback_witness:
  "kernel (snd (start_kernel_enter (failing_start (Exn ''RuntimeError'' ''boom''))
          TASK_STATUS_IGNORED Map.empty (new_manager ''inprocess''))) = Some 0
   \<and> fst (start_kernel (failing_start (Exn ''RuntimeError'' ''boom'')) TASK_STATUS_IGNORED
          Map.empty (perform_all (failing_start (Exn ''RuntimeError'' ''boom'')) base_client [])
          (new_manager ''inprocess'')) = Inl (Exn ''RuntimeError'' ''boom'')
   \<and> fst (is_alive (snd (start_kernel (failing_start (Exn ''RuntimeError'' ''boom''))
          TASK_STATUS_IGNORED Map.empty
          (perform_all (failing_start (Exn ''RuntimeError'' ''boom'')) base_client [])
          (new_manager ''inprocess'')))) = Inr True
   \<and> kernel (snd (start_kernel (failing_start (Exn ''RuntimeError'' ''boom''))
          TASK_STATUS_IGNORED Map.empty
          (perform_all (failing_start (Exn ''RuntimeError'' ''boom'')) base_client [])
          (new_manager ''inprocess''))) = Some 0"
proof -
  let ?m = "new_manager ''inprocess''"
  let ?b = "Exn ''RuntimeError'' ''boom''"
  let ?c = "failing_start ?b"
  have m: "allocated ?m = 0"
    by (simp add: new_manager_def)
  have h1: "kernel_init ?c (trace ?m) (allocated ?m) (session ?m) = None"
    by (simp add: failing_start_def obliging_def)
  have h2: "kernel_start ?c
      (trace (perform_all ?c base_client []
         (snd (start_kernel_enter ?c TASK_STATUS_IGNORED Map.empty ?m))))
      (allocated ?m) TASK_STATUS_IGNORED = Some ?b"
    by (simp add: failing_start_def)
  have h3: "\<not> clears_any []"
    by simp
  note run = failed_start_no_rollback [OF h1 h2]
  have a: "kernel (snd (start_kernel_enter ?c TASK_STATUS_IGNORED Map.empty ?m)) = Some 0"
    using run [THEN conjunct1] by (simp only: m)
  have b: "fst (start_kernel ?c TASK_STATUS_IGNORED Map.empty (perform_all ?c base_client []) ?m)
      = Inl ?b"
    using run [THEN conjunct2, THEN conjunct1] by (simp only: fst_conv)
  have c: "fst (is_alive (snd (start_kernel ?c TASK_STATUS_IGNORED Map.empty
      (perform_all ?c base_client []) ?m))) = Inr True"
    by (rule run [THEN conjunct2, THEN conjunct2, THEN conjunct1, THEN mp, OF h3])
  have d: "kernel (snd (start_kernel ?c TASK_STATUS_IGNORED Map.empty
      (perform_all ?c base_client []) ?m)) = Some 0"
    using run [THEN conjunct2, THEN conjunct2, THEN conjunct2, THEN mp, OF refl]
    by (simp only: m)
  from a b c d show ?thesis by blast
qed

text \<open>
  C9 as stated fails: the construction returns, \<^verbatim>\<open>start_kernel\<close> is suspended in its
  await, another task calls \<^verbatim>\<open>shutdown_kernel\<close>, and the await then raises; after the
  failed start the slot is empty and \<^verbatim>\<open>is_alive()\<close> returns false.
\<close>

theorem failed_start_not_alive_counterexample:
  "kernel_init (failing_start (Exn ''RuntimeError'' ''boom'')) [] 0
     (default_session ''inprocess'') = None
   \<and> start_kernel (failing_start (Exn ''RuntimeError'' ''boom'')) TASK_STATUS_IGNORED Map.empty
       (perform_all (failing_start (Exn ''RuntimeError'' ''boom'')) base_client [CallShutdown])
       (new_manager ''inprocess'')
     = (Inl (Exn ''RuntimeError'' ''boom''),
        \<lparr>kernel = None, session = default_session ''inprocess'',
         trace = [Init 0, SetKernel (Some 0), Start 0 TASK_STATUS_IGNORED,
                  IopubStop 0, Stop 0, SetKernel None],
         allocated = Suc 0\<rparr>)
   \<and> is_alive
       \<lparr>kernel = None, session = default_session ''inprocess'',
        trace = [Init 0, SetKernel (Some 0), Start 0 TASK_STATUS_IGNORED,
                 IopubStop 0, Stop 0, SetKernel None],
        allocated = Suc 0\<rparr>
     = (Inr False,
        \<lparr>kernel = None, session = default_session ''inprocess'',
         trace = [Init 0, SetKernel (Some 0), Start 0 TASK_STATUS_IGNORED,
                  IopubStop 0, Stop 0, SetKernel None],
         allocated = Suc 0\<rparr>)"
  by (simp add: run_defs is_alive_def failing_start_def obliging_def)

text \<open>
  C10. Whatever the caller passes under \<^verbatim>\<open>"kernel"\<close>, the base factory receives the
  caller's other options and, under \<^verbatim>\<open>"kernel"\<close>, the manager's own slot: the call is the
  same as one without that option.
\<close>

theorem client_overwrites_kernel_option:
  "client base (kw(''kernel'' \<mapsto> v)) s
     = (base s (kw(''kernel'' \<mapsto> kernel_value (kernel s))), s)
   \<and> client base (kw(''kernel'' \<mapsto> v)) s = client base kw s"
  by (simp add: client_def)

end
